theory Spec2Isabelle
  imports Complex_Main
begin

section \<open>Data model\<close>

text \<open>
  The converter works on the object graph of a parsed tablature file:
  measure, voices, beats, notes. Only the attributes that
  \<^verbatim>\<open>tremolo_converter.py\<close> reads or writes are fields here.

  A tremolo marker is an object holding a duration; the marker slot of an effect
  descriptor is \<open>None\<close> when the attribute is missing or holds Python's
  \<^verbatim>\<open>None\<close>: every read in the source is
  \<^verbatim>\<open>hasattr(e, 'tremoloPicking') and e.tremoloPicking\<close>, which does not tell the
  two apart, and a marker object is truthy. In the same way a dot flag is \<open>False\<close> when the
  attribute is missing or false.
\<close>

datatype error = ZeroDivisionError | IndexError | AttributeError | TypeError | ValueError

record duration =
  d_value :: int
  isDotted :: bool
  isDoubleDotted :: bool

record tremolo_picking =
  tp_duration :: duration

record note_effect =
  ne_tremoloPicking :: "tremolo_picking option"

record beat_effect =
  be_tremoloPicking :: "tremolo_picking option"

datatype note_type = NoteRest | NoteNormal | NoteTie | NoteDead

record gp_note =
  n_value :: int
  n_string :: int
  n_type :: note_type
  n_velocity :: int
  n_effect :: note_effect

record beat =
  b_duration :: duration
  b_effect :: beat_effect
  b_notes :: "gp_note list"

record voice =
  v_beats :: "beat list"

text \<open>
  What \<^verbatim>\<open>int(x)\<close> does on the value of a time-signature attribute: the attribute
  may be missing (reading it raises AttributeError), hold an integer, hold something
  \<^verbatim>\<open>int()\<close> rejects with TypeError (None, an arbitrary object), or hold a string
  that is no integer literal (ValueError).
\<close>

datatype attr_value = AttrMissing | IntLike int | NotANumber | BadLiteral

record time_signature =
  numerator :: attr_value
  denominator :: attr_value

text \<open>
  \<open>m_timeSignature\<close> is \<open>None\<close> when the measure has no header or the header has no
  time signature (the two \<^verbatim>\<open>hasattr\<close> tests of
  \<^verbatim>\<open>get_time_signature_duration\<close>).
\<close>

record gp_measure =
  m_timeSignature :: "time_signature option"
  m_voices :: "voice list"

text \<open>The warnings the source prints, as values.\<close>

datatype diag =
    WarnUnknownTremoloValue int
  | WarnSpeedNotFound
  | WarnTimeSigUnreliable
  | WarnTimeSigInvalid

section \<open>Exceptions as values\<close>

definition exn_bind :: "error + 'a \<Rightarrow> ('a \<Rightarrow> error + 'b) \<Rightarrow> error + 'b" where
  "exn_bind r f = (case r of Inl e \<Rightarrow> Inl e | Inr x \<Rightarrow> f x)"

text \<open>\<^verbatim>\<open>Fraction(n, d)\<close>: an exact rational, ZeroDivisionError when \<open>d = 0\<close>.\<close>

definition Fraction :: "int \<Rightarrow> int \<Rightarrow> error + rat" where
  "Fraction n d = (if d = 0 then Inl ZeroDivisionError else Inr (of_int n / of_int d))"

section \<open>Tremolo detection and removal\<close>

definition has_tremolo_picking :: "beat \<Rightarrow> bool" where
  "has_tremolo_picking b =
     (if be_tremoloPicking (b_effect b) \<noteq> None then True
      else list_ex (\<lambda>n. ne_tremoloPicking (n_effect n) \<noteq> None) (b_notes b))"

definition remove_tremolo_effect :: "beat \<Rightarrow> beat" where
  "remove_tremolo_effect b =
     b\<lparr>b_effect := (b_effect b)\<lparr>be_tremoloPicking := None\<rparr>,
       b_notes := map (\<lambda>n. n\<lparr>n_effect := (n_effect n)\<lparr>ne_tremoloPicking := None\<rparr>\<rparr>) (b_notes b)\<rparr>"

section \<open>Duration arithmetic\<close>

definition duration_to_fraction :: "int \<Rightarrow> bool \<Rightarrow> bool \<Rightarrow> error + rat" where
  "duration_to_fraction duration_value is_dotted is_double_dotted =
     exn_bind (Fraction 1 duration_value) (\<lambda>base_fraction.
       if is_double_dotted then Inr (base_fraction * (7 / 4))
       else if is_dotted then Inr (base_fraction * (3 / 2))
       else Inr base_fraction)"

definition get_beat_duration_fraction :: "beat \<Rightarrow> error + rat" where
  "get_beat_duration_fraction b =
     duration_to_fraction (d_value (b_duration b)) (isDotted (b_duration b))
       (isDoubleDotted (b_duration b))"

section \<open>Beat subdivision\<close>

text \<open>
  \<^verbatim>\<open>type(original_beat.effect)()\<close> and \<^verbatim>\<open>type(original_note.effect)()\<close>
  build fresh effect descriptors, which carry no tremolo marker;
  \<^verbatim>\<open>type(original_beat.duration)()\<close> builds a fresh duration whose value is then set
  to the target and whose dot flags are set to false (lines 122-127, 146-150).
\<close>

definition new_beat_effect :: beat_effect where
  "new_beat_effect = \<lparr>be_tremoloPicking = None\<rparr>"

definition new_note_effect :: note_effect where
  "new_note_effect = \<lparr>ne_tremoloPicking = None\<rparr>"

definition new_duration :: "int \<Rightarrow> duration" where
  "new_duration target_duration =
     \<lparr>d_value = target_duration, isDotted = False, isDoubleDotted = False\<rparr>"

text \<open>Lines 129-134 and 153-158: a fresh note that copies four attributes of the original.\<close>

definition new_note :: "gp_note \<Rightarrow> gp_note" where
  "new_note original_note =
     \<lparr>n_value = n_value original_note, n_string = n_string original_note,
      n_type = n_type original_note, n_velocity = n_velocity original_note,
      n_effect = new_note_effect\<rparr>"

text \<open>Lines 121-135: the beat built for one original note in one round of the loop.\<close>

definition new_beat :: "int \<Rightarrow> gp_note \<Rightarrow> beat" where
  "new_beat target_duration original_note =
     \<lparr>b_duration = new_duration target_duration, b_effect = new_beat_effect,
      b_notes = [new_note original_note]\<rparr>"

text \<open>Lines 145-159: the chord beat, one fresh note per original note.\<close>

definition new_chord_beat :: "beat \<Rightarrow> int \<Rightarrow> beat" where
  "new_chord_beat original_beat target_duration =
     \<lparr>b_duration = new_duration target_duration, b_effect = new_beat_effect,
      b_notes = map new_note (b_notes original_beat)\<rparr>"

text \<open>
  Lines 120-136, one round of the \<^verbatim>\<open>while\<close> loop: for each note \<open>i\<close> a beat is
  appended to \<^verbatim>\<open>notes_per_subdivision[i]\<close>. That list has one entry per note
  (line 116), so the index is in range.
\<close>

definition subdivision_round :: "beat \<Rightarrow> int \<Rightarrow> beat list list \<Rightarrow> beat list list" where
  "subdivision_round original_beat target_duration notes_per_subdivision =
     foldl (\<lambda>nps (i, original_note). nps[i := nps ! i @ [new_beat target_duration original_note]])
       notes_per_subdivision (enumerate 0 (b_notes original_beat))"

text \<open>
  Lines 119-137, the \<^verbatim>\<open>while\<close> loop. Whether it ends depends on the target
  fraction, so it is a partial function: \<open>None\<close> is a loop that never ends.
\<close>

partial_function (option) subdivision_loop ::
  "beat \<Rightarrow> int \<Rightarrow> rat \<Rightarrow> rat \<Rightarrow> beat list list \<Rightarrow> beat list list option" where
  "subdivision_loop original_beat target_duration target_duration_fraction remaining_duration
       notes_per_subdivision =
     (if remaining_duration \<ge> target_duration_fraction
      then subdivision_loop original_beat target_duration target_duration_fraction
             (remaining_duration - target_duration_fraction)
             (subdivision_round original_beat target_duration notes_per_subdivision)
      else Some notes_per_subdivision)"

declare subdivision_loop.simps [code]

text \<open>
  Lines 92-107: the target duration and the warning printed on the way. The test of
  line 109 can never succeed (every branch assigns a number) and has no counterpart.
\<close>

definition resolve_target_duration :: "tremolo_picking option \<Rightarrow> diag list \<times> int" where
  "resolve_target_duration tremolo_speed_object =
     (case tremolo_speed_object of
        Some tp \<Rightarrow>
          (let speed_value = d_value (tp_duration tp) in
           if speed_value = 8 then ([], 8)
           else if speed_value = 16 then ([], 16)
           else if speed_value = 32 then ([], 32)
           else ([WarnUnknownTremoloValue speed_value], 16))
      | None \<Rightarrow> ([WarnSpeedNotFound], 16))"

text \<open>
  \<open>create_individual_notes\<close> returns the warnings printed and either the exception
  raised or the list of new beats; \<open>None\<close> would be a call that never returns. The
  \<^verbatim>\<open>voice\<close> argument only becomes the parent pointer of the new beats and is left
  out. The original duration is read first (line 91), before any warning.
\<close>

definition create_individual_notes ::
  "beat \<Rightarrow> tremolo_picking option \<Rightarrow> (diag list \<times> (error + beat list)) option" where
  "create_individual_notes original_beat tremolo_speed_object =
     (case get_beat_duration_fraction original_beat of
        Inl e \<Rightarrow> Some ([], Inl e)
      | Inr original_duration_fraction \<Rightarrow>
          (let (warnings, target_duration) = resolve_target_duration tremolo_speed_object in
           case duration_to_fraction target_duration False False of
             Inl e \<Rightarrow> Some (warnings, Inl e)
           | Inr target_duration_fraction \<Rightarrow>
               (let num_original_notes = length (b_notes original_beat) in
                if num_original_notes > 0 then
                  (case subdivision_loop original_beat target_duration target_duration_fraction
                          original_duration_fraction (replicate num_original_notes []) of
                     None \<Rightarrow> None
                   | Some notes_per_subdivision \<Rightarrow>
                       Some (warnings, Inr
                         (if notes_per_subdivision \<noteq> [] \<and> notes_per_subdivision ! 0 \<noteq> []
                          then map (\<lambda>_. new_chord_beat original_beat target_duration)
                                 [0 ..< length (notes_per_subdivision ! 0)]
                          else [])))
                else Some (warnings, Inr []))))"

section \<open>Position calculator\<close>

text \<open>Lines 59-64: the running sum of the durations, started at \<open>current_pos\<close>.\<close>

fun beat_positions_from :: "rat \<Rightarrow> beat list \<Rightarrow> error + rat list" where
  "beat_positions_from current_pos [] = Inr []"
| "beat_positions_from current_pos (b # bs) =
     exn_bind (get_beat_duration_fraction b) (\<lambda>d.
       exn_bind (beat_positions_from (current_pos + d) bs) (\<lambda>positions.
         Inr (current_pos # positions)))"

definition calculate_beat_positions :: "voice \<Rightarrow> error + rat list" where
  "calculate_beat_positions v = beat_positions_from 0 (v_beats v)"

section \<open>Measure rewriter\<close>

text \<open>
  A computation of the rewriter either runs forever (\<open>None\<close>), raises, or returns.
\<close>

definition run_bind ::
  "(error + 'a) option \<Rightarrow> ('a \<Rightarrow> (error + 'b) option) \<Rightarrow> (error + 'b) option" where
  "run_bind r f = (case r of None \<Rightarrow> None | Some (Inl e) \<Rightarrow> Some (Inl e) | Some (Inr x) \<Rightarrow> f x)"

text \<open>
  Lines 180-183: the scan of the notes, which overwrites the speed found so far with the
  marker of the first note that has one and stops there.
\<close>

fun scan_note_markers :: "tremolo_picking option \<Rightarrow> gp_note list \<Rightarrow> tremolo_picking option" where
  "scan_note_markers tremolo_speed_value [] = tremolo_speed_value"
| "scan_note_markers tremolo_speed_value (n # ns) =
     (if ne_tremoloPicking (n_effect n) \<noteq> None then ne_tremoloPicking (n_effect n)
      else scan_note_markers tremolo_speed_value ns)"

text \<open>Lines 177-183: the speed object recorded for a tremolo beat.\<close>

definition tremolo_speed_value :: "beat \<Rightarrow> tremolo_picking option" where
  "tremolo_speed_value b =
     scan_note_markers
       (if be_tremoloPicking (b_effect b) \<noteq> None then be_tremoloPicking (b_effect b) else None)
       (b_notes b)"

text \<open>
  Lines 174-187, the detection pass over the beats from index \<open>beat_idx\<close> on. An entry
  holds the index, the beat and the speed object; the position and the original
  duration of the source's tuple are only printed. Line 185 reads the duration fraction
  of every tremolo beat and can raise.
\<close>

fun collect_tremolo_beats ::
  "nat \<Rightarrow> beat list \<Rightarrow> error + (nat \<times> beat \<times> tremolo_picking option) list" where
  "collect_tremolo_beats beat_idx [] = Inr []"
| "collect_tremolo_beats beat_idx (b # bs) =
     (if has_tremolo_picking b then
        exn_bind (get_beat_duration_fraction b) (\<lambda>original_fraction.
          exn_bind (collect_tremolo_beats (Suc beat_idx) bs) (\<lambda>tremolo_beats.
            Inr ((beat_idx, b, tremolo_speed_value b) # tremolo_beats)))
      else collect_tremolo_beats (Suc beat_idx) bs)"

text \<open>
  \<^verbatim>\<open>list.pop(i)\<close> raises IndexError out of range; \<^verbatim>\<open>list.insert(i, x)\<close>
  appends when \<open>i\<close> is beyond the end (indices here are never negative).
\<close>

definition list_pop :: "nat \<Rightarrow> 'a list \<Rightarrow> error + 'a list" where
  "list_pop i xs = (if i < length xs then Inr (take i xs @ drop (Suc i) xs) else Inl IndexError)"

definition list_insert :: "nat \<Rightarrow> 'a \<Rightarrow> 'a list \<Rightarrow> 'a list" where
  "list_insert i x xs = take i xs @ x # drop i xs"

text \<open>Lines 201-202: the new beats are inserted one by one from \<open>beat_idx\<close> on.\<close>

definition insert_new_beats :: "nat \<Rightarrow> beat list \<Rightarrow> beat list \<Rightarrow> beat list" where
  "insert_new_beats beat_idx new_beats beats =
     foldl (\<lambda>bs (i, nb). list_insert (beat_idx + i) nb bs) beats (enumerate 0 new_beats)"

text \<open>
  Lines 192-207, the loop over the collected entries in the order given (the caller
  passes them reversed). \<^verbatim>\<open>remove_tremolo_effect(beat)\<close> mutates the collected beat
  object, which is the element of \<^verbatim>\<open>voice.beats\<close> at \<open>beat_idx\<close>: the entries are
  handled from the highest index down, so nothing before it has moved.
\<close>

fun process_tremolo_beats ::
  "(nat \<times> beat \<times> tremolo_picking option) list \<Rightarrow> beat list \<Rightarrow> (error + beat list) option" where
  "process_tremolo_beats [] beats = Some (Inr beats)"
| "process_tremolo_beats ((beat_idx, b, speed) # entries) beats =
     (case create_individual_notes b speed of
        None \<Rightarrow> None
      | Some (warnings, Inl e) \<Rightarrow> Some (Inl e)
      | Some (warnings, Inr new_beats) \<Rightarrow>
          if length new_beats \<le> 1
          then process_tremolo_beats entries (beats[beat_idx := remove_tremolo_effect b])
          else (case list_pop beat_idx beats of
                  Inl e \<Rightarrow> Some (Inl e)
                | Inr popped \<Rightarrow>
                    process_tremolo_beats entries (insert_new_beats beat_idx new_beats popped)))"

text \<open>
  The body of the loop over the voices (lines 172-207): the voice after the rewrite and
  the number of tremolo beats handled.
\<close>

definition convert_tremolo_in_voice :: "voice \<Rightarrow> (error + voice \<times> nat) option" where
  "convert_tremolo_in_voice v =
     (case calculate_beat_positions v of
        Inl e \<Rightarrow> Some (Inl e)
      | Inr beat_positions \<Rightarrow>
          (case collect_tremolo_beats 0 (v_beats v) of
             Inl e \<Rightarrow> Some (Inl e)
           | Inr tremolo_beats \<Rightarrow>
               if tremolo_beats = [] then Some (Inr (v, 0))
               else run_bind (process_tremolo_beats (rev tremolo_beats) (v_beats v))
                      (\<lambda>beats. Some (Inr (v\<lparr>v_beats := beats\<rparr>, length tremolo_beats)))))"

fun convert_tremolo_in_voices :: "voice list \<Rightarrow> (error + voice list \<times> nat) option" where
  "convert_tremolo_in_voices [] = Some (Inr ([], 0))"
| "convert_tremolo_in_voices (v # vs) =
     run_bind (convert_tremolo_in_voice v) (\<lambda>(v', n).
       run_bind (convert_tremolo_in_voices vs) (\<lambda>(vs', converted_count).
         Some (Inr (v' # vs', n + converted_count))))"

text \<open>
  \<open>convert_tremolo_in_measure\<close> returns the measure as the call leaves it and the count.
  Its console output is not modelled.
\<close>

definition convert_tremolo_in_measure :: "gp_measure \<Rightarrow> (error + gp_measure \<times> nat) option" where
  "convert_tremolo_in_measure m =
     run_bind (convert_tremolo_in_voices (m_voices m)) (\<lambda>(voices, converted_count).
       Some (Inr (m\<lparr>m_voices := voices\<rparr>, converted_count)))"

text \<open>
  The rewrite as the specification words it (section 4.5), beat by beat: a beat without
  tremolo stays; a tremolo beat for which the subdivider returns at most one beat stays
  with its marker stripped; otherwise the returned beats take its place.
\<close>

definition subdivider_result :: "beat \<Rightarrow> beat list" where
  "subdivider_result b =
     (case create_individual_notes b (tremolo_speed_value b) of
        Some (warnings, Inr new_beats) \<Rightarrow> new_beats
      | _ \<Rightarrow> [])"

definition rewritten_beat :: "beat \<Rightarrow> beat list" where
  "rewritten_beat b =
     (if has_tremolo_picking b then
        (if length (subdivider_result b) \<le> 1 then [remove_tremolo_effect b]
         else subdivider_result b)
      else [b])"

definition rewritten_voice :: "voice \<Rightarrow> voice" where
  "rewritten_voice v = v\<lparr>v_beats := concat (map rewritten_beat (v_beats v))\<rparr>"

text \<open>
  The detection as the specification words it: the tremolo beats of the voice as it is
  before the rewrite, each with its index and its speed object, by increasing index.
\<close>

definition detected_tremolo_beats :: "beat list \<Rightarrow> (nat \<times> beat \<times> tremolo_picking option) list" where
  "detected_tremolo_beats bs =
     map (\<lambda>i. (i, bs ! i, tremolo_speed_value (bs ! i)))
       (filter (\<lambda>i. has_tremolo_picking (bs ! i)) [0 ..< length bs])"

section \<open>Timing validator\<close>

text \<open>\<^verbatim>\<open>int(x)\<close> on the value of an attribute, reading the attribute first.\<close>

fun py_int :: "attr_value \<Rightarrow> error + int" where
  "py_int AttrMissing = Inl AttributeError"
| "py_int (IntLike n) = Inr n"
| "py_int NotANumber = Inl TypeError"
| "py_int BadLiteral = Inl ValueError"

text \<open>
  Lines 72-74, and again lines 77-79 with \<^verbatim>\<open>getattr\<close>: numerator first, then
  denominator, then the fraction.
\<close>

definition read_time_signature :: "time_signature \<Rightarrow> error + rat" where
  "read_time_signature ts =
     exn_bind (py_int (numerator ts)) (\<lambda>n.
       exn_bind (py_int (denominator ts)) (\<lambda>d. Fraction n d))"

text \<open>
  Lines 67-86. The outer \<^verbatim>\<open>try\<close> handles AttributeError (by a second attempt
  under a bare \<^verbatim>\<open>except\<close>) and TypeError; any other exception leaves the function.
  Returned: the warnings printed and the result.
\<close>

definition get_time_signature_duration :: "gp_measure \<Rightarrow> diag list \<times> (error + rat)" where
  "get_time_signature_duration m =
     (case m_timeSignature m of
        None \<Rightarrow> ([], Inr 1)
      | Some ts \<Rightarrow>
          (case read_time_signature ts of
             Inr q \<Rightarrow> ([], Inr q)
           | Inl e \<Rightarrow>
               if e = AttributeError then
                 (case read_time_signature ts of
                    Inr q \<Rightarrow> ([], Inr q)
                  | Inl _ \<Rightarrow> ([WarnTimeSigUnreliable], Inr 1))
               else if e = TypeError then ([WarnTimeSigInvalid], Inr 1)
               else ([], Inl e)))"

text \<open>Lines 215-217: the sum of the durations of a voice, added to \<open>total_duration\<close>.\<close>

fun total_duration_from :: "rat \<Rightarrow> beat list \<Rightarrow> error + rat" where
  "total_duration_from total_duration [] = Inr total_duration"
| "total_duration_from total_duration (b # bs) =
     exn_bind (get_beat_duration_fraction b) (\<lambda>d. total_duration_from (total_duration + d) bs)"

text \<open>
  Lines 220-228: beats are kept while the running duration stays within the capacity;
  the loop stops at the first beat that does not fit.
\<close>

fun beats_to_keep_from :: "rat \<Rightarrow> rat \<Rightarrow> beat list \<Rightarrow> error + beat list" where
  "beats_to_keep_from time_sig_duration current_duration [] = Inr []"
| "beats_to_keep_from time_sig_duration current_duration (b # bs) =
     exn_bind (get_beat_duration_fraction b) (\<lambda>beat_duration.
       if current_duration + beat_duration \<le> time_sig_duration
       then exn_bind
              (beats_to_keep_from time_sig_duration (current_duration + beat_duration) bs)
              (\<lambda>beats_to_keep. Inr (b # beats_to_keep))
       else Inr [])"

text \<open>Lines 215-231, the body of the loop over the voices.\<close>

definition validate_voice_timing :: "rat \<Rightarrow> voice \<Rightarrow> error + voice" where
  "validate_voice_timing time_sig_duration v =
     exn_bind (total_duration_from 0 (v_beats v)) (\<lambda>total_duration.
       if total_duration > time_sig_duration then
         exn_bind (beats_to_keep_from time_sig_duration 0 (v_beats v)) (\<lambda>beats_to_keep.
           if length beats_to_keep < length (v_beats v)
           then Inr (v\<lparr>v_beats := beats_to_keep\<rparr>)
           else Inr v)
       else Inr v)"

fun validate_voices_timing :: "rat \<Rightarrow> voice list \<Rightarrow> error + voice list" where
  "validate_voices_timing time_sig_duration [] = Inr []"
| "validate_voices_timing time_sig_duration (v # vs) =
     exn_bind (validate_voice_timing time_sig_duration v) (\<lambda>v'.
       exn_bind (validate_voices_timing time_sig_duration vs) (\<lambda>vs'. Inr (v' # vs')))"

text \<open>\<open>validate_measure_timing\<close> returns the measure as the call leaves it.\<close>

definition validate_measure_timing :: "gp_measure \<Rightarrow> error + gp_measure" where
  "validate_measure_timing m =
     exn_bind (snd (get_time_signature_duration m)) (\<lambda>time_sig_duration.
       exn_bind (validate_voices_timing time_sig_duration (m_voices m)) (\<lambda>voices.
         Inr (m\<lparr>m_voices := voices\<rparr>)))"

section \<open>Derived notions used in the statements\<close>

text \<open>
  The fraction of a whole note a beat lasts, as the specification words it (section 4.1):
  one over the duration value, times 7/4 when the double-dotted flag is set, else times
  3/2 when the dotted flag is set. To be compared with \<open>get_beat_duration_fraction\<close>.
\<close>

definition beat_fraction :: "beat \<Rightarrow> rat" where
  "beat_fraction b =
     (1 / of_int (d_value (b_duration b)))
       * (if isDoubleDotted (b_duration b) then 7 / 4
          else if isDotted (b_duration b) then 3 / 2 else 1)"

text \<open>
  The subdivision as the specification words it (section 4.4, steps 3 to 5): no beat for a
  rest; otherwise \<open>\<lfloor>originalFraction / targetFraction\<rfloor>\<close> chord beats of the target
  duration. To be compared with \<open>create_individual_notes\<close>.
\<close>

definition replacement_beats :: "beat \<Rightarrow> int \<Rightarrow> beat list" where
  "replacement_beats original_beat target_duration =
     (if b_notes original_beat = [] then []
      else replicate (nat \<lfloor>beat_fraction original_beat / (1 / of_int target_duration)\<rfloor>)
             (new_chord_beat original_beat target_duration))"

text \<open>
  The exact sum of the durations of a sequence of beats, from their duration values and
  dot flags. To be compared with what lines 215-217 compute.
\<close>

definition beats_duration :: "beat list \<Rightarrow> rat" where
  "beats_duration bs = sum_list (map beat_fraction bs)"

text \<open>The voice \<open>validate_voice_timing\<close> returns, for a voice on which it returns.\<close>

definition validated_voice :: "rat \<Rightarrow> voice \<Rightarrow> voice" where
  "validated_voice time_sig_duration v =
     (case validate_voice_timing time_sig_duration v of Inr v' \<Rightarrow> v' | Inl _ \<Rightarrow> v)"

section \<open>Example inputs\<close>

text \<open>
  Concrete notes, beats and measures on which the results below are evaluated: a quarter
  note without tremolo, tremolo beats whose marker sits on a note, a rest with a
  beat-level marker, a beat with markers on both levels, and measures in 4/4.
\<close>

definition speed_of :: "int \<Rightarrow> tremolo_picking" where
  "speed_of v = \<lparr>tp_duration = \<lparr>d_value = v, isDotted = False, isDoubleDotted = False\<rparr>\<rparr>"

definition plain_note :: "int \<Rightarrow> int \<Rightarrow> gp_note" where
  "plain_note v s = \<lparr>n_value = v, n_string = s, n_type = NoteNormal, n_velocity = 95,
     n_effect = \<lparr>ne_tremoloPicking = None\<rparr>\<rparr>"

definition tremolo_note :: "int \<Rightarrow> int \<Rightarrow> int \<Rightarrow> gp_note" where
  "tremolo_note v s speed = \<lparr>n_value = v, n_string = s, n_type = NoteNormal, n_velocity = 95,
     n_effect = \<lparr>ne_tremoloPicking = Some (speed_of speed)\<rparr>\<rparr>"

definition quarter :: duration where
  "quarter = \<lparr>d_value = 4, isDotted = False, isDoubleDotted = False\<rparr>"

definition plain_quarter :: beat where
  "plain_quarter = \<lparr>b_duration = quarter, b_effect = \<lparr>be_tremoloPicking = None\<rparr>,
     b_notes = [plain_note 3 1]\<rparr>"

definition quarter_tremolo :: beat where
  "quarter_tremolo = \<lparr>b_duration = \<lparr>d_value = 4, isDotted = False, isDoubleDotted = False\<rparr>,
     b_effect = \<lparr>be_tremoloPicking = None\<rparr>, b_notes = [tremolo_note 7 3 5]\<rparr>"

definition thirty_second_tremolo :: beat where
  "thirty_second_tremolo =
     \<lparr>b_duration = \<lparr>d_value = 32, isDotted = False, isDoubleDotted = False\<rparr>,
      b_effect = \<lparr>be_tremoloPicking = None\<rparr>, b_notes = [tremolo_note 9 2 32]\<rparr>"

definition eighth_chord :: beat where
  "eighth_chord = \<lparr>b_duration = \<lparr>d_value = 8, isDotted = False, isDoubleDotted = False\<rparr>,
     b_effect = \<lparr>be_tremoloPicking = None\<rparr>,
     b_notes = [tremolo_note 0 6 16, tremolo_note 2 5 16, tremolo_note 2 4 16]\<rparr>"

definition rest_tremolo :: beat where
  "rest_tremolo = \<lparr>b_duration = quarter, b_effect = \<lparr>be_tremoloPicking = Some (speed_of 16)\<rparr>,
     b_notes = []\<rparr>"

definition both_markers :: beat where
  "both_markers = \<lparr>b_duration = \<lparr>d_value = 4, isDotted = False, isDoubleDotted = False\<rparr>,
     b_effect = \<lparr>be_tremoloPicking = Some (speed_of 8)\<rparr>,
     b_notes = [plain_note 5 2, tremolo_note 7 3 32]\<rparr>"

definition four_four :: time_signature where
  "four_four = \<lparr>numerator = IntLike 4, denominator = IntLike 4\<rparr>"

definition example_measure :: gp_measure where
  "example_measure = \<lparr>m_timeSignature = Some four_four,
     m_voices = [\<lparr>v_beats = [plain_quarter, quarter_tremolo, thirty_second_tremolo]\<rparr>,
                 \<lparr>v_beats = []\<rparr>]\<rparr>"

definition rest_measure :: gp_measure where
  "rest_measure = \<lparr>m_timeSignature = Some four_four,
     m_voices = [\<lparr>v_beats = [rest_tremolo]\<rparr>]\<rparr>"

definition rest_between :: gp_measure where
  "rest_between = \<lparr>m_timeSignature = Some four_four,
     m_voices = [\<lparr>v_beats = [plain_quarter, rest_tremolo, quarter_tremolo]\<rparr>]\<rparr>"

definition dotted_quarter_tremolo :: beat where
  "dotted_quarter_tremolo =
     \<lparr>b_duration = \<lparr>d_value = 4, isDotted = True, isDoubleDotted = False\<rparr>,
      b_effect = \<lparr>be_tremoloPicking = None\<rparr>, b_notes = [tremolo_note 5 1 16]\<rparr>"

definition double_dotted_eighth_tremolo :: beat where
  "double_dotted_eighth_tremolo =
     \<lparr>b_duration = \<lparr>d_value = 8, isDotted = True, isDoubleDotted = True\<rparr>,
      b_effect = \<lparr>be_tremoloPicking = None\<rparr>, b_notes = [tremolo_note 5 1 32]\<rparr>"





definition overfull_measure :: gp_measure where
  "overfull_measure = \<lparr>m_timeSignature = Some four_four,
     m_voices = [\<lparr>v_beats = replicate 5 plain_quarter\<rparr>, \<lparr>v_beats = [plain_quarter]\<rparr>]\<rparr>"

section \<open>Duration arithmetic: results\<close>

text \<open>
  Claim C8. For every denominator value \<open>d\<close> a duration can carry (any nonzero integer;
  \<^verbatim>\<open>Fraction(1, 0)\<close> raises) and every pair of dot flags,
  \<open>duration_to_fraction\<close> returns \<open>1/d\<close> when neither flag is set,
  \<open>(1/d) * (7/4)\<close> when the double-dotted flag is set, whatever the dotted flag, and
  \<open>(1/d) * (3/2)\<close> when only the dotted flag is set; a dotted quarter is \<open>3/8\<close> and a
  double-dotted eighth is \<open>7/32\<close>.
\<close>

theorem duration_to_fraction_exact:
  "d \<noteq> 0 \<Longrightarrow>
     duration_to_fraction d False False = Inr (1 / of_int d)
   \<and> duration_to_fraction d dotted True = Inr ((1 / of_int d) * (7 / 4))
   \<and> duration_to_fraction d True False = Inr ((1 / of_int d) * (3 / 2))
   \<and> duration_to_fraction 4 True False = Inr (3 / 8)
   \<and> duration_to_fraction 8 False True = Inr (7 / 32)"
  by (simp add: duration_to_fraction_def Fraction_def exn_bind_def)

theorem duration_to_fraction_exact_witness:
  "(16::int) \<noteq> 0
   \<and> duration_to_fraction 16 False False = Inr (1 / 16)
   \<and> duration_to_fraction 16 True True = Inr (7 / 64)
   \<and> duration_to_fraction 16 True False = Inr (3 / 32)"
  using duration_to_fraction_exact [of 16 True] by simp

section \<open>Beat subdivision: results\<close>

lemma round_length:
  "length (foldl (\<lambda>nps (i, original_note). nps[i := nps ! i @ [f original_note]]) nps
     (enumerate k xs)) = length nps"
  by (induction xs arbitrary: k nps) auto

lemma round_nth0:
  "0 < k \<Longrightarrow>
   foldl (\<lambda>nps (i, original_note). nps[i := nps ! i @ [f original_note]]) nps
     (enumerate k xs) ! 0 = nps ! 0"
  by (induction xs arbitrary: k nps) auto

lemma subdivision_round_length:
  "length (subdivision_round ob t nps) = length nps"
  by (simp add: subdivision_round_def round_length)

lemma subdivision_round_first:
  assumes "b_notes ob \<noteq> []" "nps \<noteq> []"
  shows "length (subdivision_round ob t nps ! 0) = Suc (length (nps ! 0))"
proof -
  obtain x xs where n: "b_notes ob = x # xs"
    using assms(1) by (cases "b_notes ob") auto
  show ?thesis
    using assms(2) by (simp add: subdivision_round_def n round_nth0)
qed

text \<open>
  With a positive target fraction the loop ends, after \<open>\<lfloor>r / tf\<rfloor>\<close> rounds when
  that is positive and at once otherwise; each round makes the first stream one longer.
\<close>

lemma subdivision_loop_result:
  assumes "0 < tf" "b_notes ob \<noteq> []" "nps \<noteq> []"
  shows "\<exists>nps'. subdivision_loop ob t tf r nps = Some nps' \<and> nps' \<noteq> []
           \<and> length (nps' ! 0) = length (nps ! 0) + nat \<lfloor>r / tf\<rfloor>"
  using assms(3)
proof (induction "nat \<lfloor>r / tf\<rfloor>" arbitrary: r nps)
  case 0
  then have "\<lfloor>r / tf\<rfloor> < 1" by linarith
  then have "r / tf < 1" by (simp only: floor_less_one)
  then have "r < tf" using assms(1) by (simp add: pos_divide_less_eq)
  then show ?case using 0 by (subst subdivision_loop.simps) simp
next
  case (Suc k)
  then have "1 \<le> \<lfloor>r / tf\<rfloor>" by linarith
  then have "1 \<le> r / tf" by (simp only: one_le_floor)
  then have ge: "tf \<le> r" using assms(1) by (simp add: pos_le_divide_eq)
  have "(r - tf) / tf = r / tf - 1" using assms(1) by (simp add: diff_divide_distrib)
  then have fl: "\<lfloor>(r - tf) / tf\<rfloor> = \<lfloor>r / tf\<rfloor> - 1" by simp
  have k: "k = nat \<lfloor>(r - tf) / tf\<rfloor>" using Suc(2) fl by linarith
  have ne: "subdivision_round ob t nps \<noteq> []"
    using Suc(3) subdivision_round_length [of ob t nps] by auto
  from Suc(1) [OF k ne] obtain nps' where
    r: "subdivision_loop ob t tf (r - tf) (subdivision_round ob t nps) = Some nps'"
       "nps' \<noteq> []"
       "length (nps' ! 0) = length (subdivision_round ob t nps ! 0) + nat \<lfloor>(r - tf) / tf\<rfloor>"
    by blast
  have "subdivision_loop ob t tf r nps = Some nps'"
    using ge r(1) by (subst subdivision_loop.simps) simp
  moreover have "length (nps' ! 0) = length (nps ! 0) + nat \<lfloor>r / tf\<rfloor>"
    using r(3) subdivision_round_first [OF assms(2) Suc(3), of t] k Suc(2) by simp
  ultimately show ?case using r(2) by blast
qed

lemma resolve_target_duration_range:
  "snd (resolve_target_duration sp) \<in> {8, 16, 32}"
  by (simp add: resolve_target_duration_def Let_def split: option.split)

text \<open>
  On a beat with a nonzero duration value the source computes the fraction of the
  specification.
\<close>

lemma get_beat_duration_fraction_returns:
  "d_value (b_duration b) \<noteq> 0 \<Longrightarrow> get_beat_duration_fraction b = Inr (beat_fraction b)"
  by (simp add: beat_fraction_def get_beat_duration_fraction_def duration_to_fraction_def
      Fraction_def exn_bind_def)

lemma get_beat_duration_fraction_raises:
  "d_value (b_duration b) = 0 \<Longrightarrow> get_beat_duration_fraction b = Inl ZeroDivisionError"
  by (simp add: get_beat_duration_fraction_def duration_to_fraction_def Fraction_def
      exn_bind_def)

lemma create_individual_notes_returns:
  assumes "d_value (b_duration ob) \<noteq> 0"
  shows "create_individual_notes ob sp =
           Some (fst (resolve_target_duration sp),
                 Inr (replacement_beats ob (snd (resolve_target_duration sp))))"
proof -
  obtain ws t where rt: "resolve_target_duration sp = (ws, t)"
    by (cases "resolve_target_duration sp")
  have t: "t \<in> {8, 16, 32}"
    using resolve_target_duration_range [of sp] rt by simp
  then have tf: "duration_to_fraction t False False = Inr (1 / of_int t)"
    by (auto simp: duration_to_fraction_def Fraction_def exn_bind_def)
  have pos: "(0::rat) < 1 / of_int t" using t by auto
  note odf = get_beat_duration_fraction_returns [OF assms]
  show ?thesis
  proof (cases "b_notes ob = []")
    case True
    then show ?thesis
      by (simp add: create_individual_notes_def odf rt tf replacement_beats_def)
  next
    case False
    then have "replicate (length (b_notes ob)) ([]::beat list) \<noteq> []" by simp
    from subdivision_loop_result [OF pos False this, of t "beat_fraction ob"]
    obtain nps' where
      l: "subdivision_loop ob t (1 / of_int t) (beat_fraction ob)
            (replicate (length (b_notes ob)) []) = Some nps'"
         "nps' \<noteq> []"
         "length (nps' ! 0) = nat \<lfloor>beat_fraction ob / (1 / of_int t)\<rfloor>"
      using False by (auto simp: nth_replicate)
    have beats: "(if nps' \<noteq> [] \<and> nps' ! 0 \<noteq> []
           then map (\<lambda>_. new_chord_beat ob t) [0 ..< length (nps' ! 0)] else [])
          = replacement_beats ob t"
      using False l(2) unfolding replacement_beats_def l(3) [symmetric]
      by (simp add: map_replicate_const)
    have "create_individual_notes ob sp =
            Some (ws, Inr (if nps' \<noteq> [] \<and> nps' ! 0 \<noteq> []
              then map (\<lambda>_. new_chord_beat ob t) [0 ..< length (nps' ! 0)] else []))"
      using False l(1) by (simp add: create_individual_notes_def odf rt tf)
    then show ?thesis
      unfolding beats by (simp add: rt)
  qed
qed

lemma beat_fraction_pos: "0 < d_value (b_duration b) \<Longrightarrow> 0 < beat_fraction b"
  by (simp add: beat_fraction_def)

text \<open>
  Claim C1. Take a beat with at least one note and a positive duration value \<open>d\<close>, and a
  speed object whose duration value \<open>t\<close> is 8, 16 or 32. The original fraction of the
  beat, dot flags included, is \<open>1/d\<close> times 7/4 when the beat is double-dotted, else
  times 3/2 when it is dotted; it is what \<open>get_beat_duration_fraction\<close> returns. Then
  \<open>create_individual_notes\<close> prints no warning and returns exactly
  \<open>\<lfloor>originalFraction / (1 / t)\<rfloor>\<close> beats. Every returned beat has the duration value
  \<open>t\<close> with both dot flags false and an effect descriptor without tremolo marker, and
  it has one note per note of the original beat, in the same order, with the same value,
  string, type and velocity and with an effect descriptor without tremolo marker.
\<close>

theorem create_individual_notes_subdivides:
  assumes "b_notes b \<noteq> []" and "0 < d_value (b_duration b)"
    and "d_value (tp_duration sp) \<in> {8, 16, 32}"
  shows "\<exists>new_beats.
           create_individual_notes b (Some sp) = Some ([], Inr new_beats)
         \<and> get_beat_duration_fraction b
             = Inr ((1 / of_int (d_value (b_duration b)))
                    * (if isDoubleDotted (b_duration b) then 7 / 4
                       else if isDotted (b_duration b) then 3 / 2 else 1))
         \<and> int (length new_beats)
             = \<lfloor>((1 / of_int (d_value (b_duration b)) :: rat)
                  * (if isDoubleDotted (b_duration b) then 7 / 4
                     else if isDotted (b_duration b) then 3 / 2 else 1))
                / (1 / of_int (d_value (tp_duration sp)))\<rfloor>
         \<and> (\<forall>nb \<in> set new_beats.
               b_duration nb = \<lparr>d_value = d_value (tp_duration sp), isDotted = False,
                                 isDoubleDotted = False\<rparr>
             \<and> b_effect nb = \<lparr>be_tremoloPicking = None\<rparr>
             \<and> length (b_notes nb) = length (b_notes b)
             \<and> map n_value (b_notes nb) = map n_value (b_notes b)
             \<and> map n_string (b_notes nb) = map n_string (b_notes b)
             \<and> map n_type (b_notes nb) = map n_type (b_notes b)
             \<and> map n_velocity (b_notes nb) = map n_velocity (b_notes b)
             \<and> (\<forall>n \<in> set (b_notes nb). n_effect n = \<lparr>ne_tremoloPicking = None\<rparr>))"
proof -
  let ?t = "d_value (tp_duration sp)"
  have nz: "d_value (b_duration b) \<noteq> 0" using assms(2) by simp
  have rt: "resolve_target_duration (Some sp) = ([], ?t)"
    using assms(3) by (auto simp: resolve_target_duration_def Let_def)
  have c: "create_individual_notes b (Some sp) = Some ([], Inr (replacement_beats b ?t))"
    using create_individual_notes_returns [OF nz, of "Some sp"] by (simp add: rt)
  have "0 < beat_fraction b"
    using assms(2) by (rule beat_fraction_pos)
  moreover have "(0::rat) < 1 / of_int ?t" using assms(3) by auto
  ultimately have "0 \<le> beat_fraction b / (1 / of_int ?t)" by simp
  then have fl: "0 \<le> \<lfloor>beat_fraction b / (1 / of_int ?t)\<rfloor>" by (simp only: zero_le_floor)
  have len: "int (length (replacement_beats b ?t)) = \<lfloor>beat_fraction b / (1 / of_int ?t)\<rfloor>"
    using assms(1) fl by (simp add: replacement_beats_def)
  have each: "\<forall>nb \<in> set (replacement_beats b ?t). nb = new_chord_beat b ?t"
    by (simp add: replacement_beats_def)
  have shape: "b_duration (new_chord_beat b ?t)
                 = \<lparr>d_value = ?t, isDotted = False, isDoubleDotted = False\<rparr>
      \<and> b_effect (new_chord_beat b ?t) = \<lparr>be_tremoloPicking = None\<rparr>
      \<and> length (b_notes (new_chord_beat b ?t)) = length (b_notes b)
      \<and> map n_value (b_notes (new_chord_beat b ?t)) = map n_value (b_notes b)
      \<and> map n_string (b_notes (new_chord_beat b ?t)) = map n_string (b_notes b)
      \<and> map n_type (b_notes (new_chord_beat b ?t)) = map n_type (b_notes b)
      \<and> map n_velocity (b_notes (new_chord_beat b ?t)) = map n_velocity (b_notes b)
      \<and> (\<forall>n \<in> set (b_notes (new_chord_beat b ?t)). n_effect n = \<lparr>ne_tremoloPicking = None\<rparr>)"
    by (simp add: new_chord_beat_def new_duration_def new_beat_effect_def new_note_def
        new_note_effect_def comp_def)
  have "\<exists>new_beats.
           create_individual_notes b (Some sp) = Some ([], Inr new_beats)
         \<and> get_beat_duration_fraction b = Inr (beat_fraction b)
         \<and> int (length new_beats) = \<lfloor>beat_fraction b / (1 / of_int ?t)\<rfloor>
         \<and> (\<forall>nb \<in> set new_beats.
               b_duration nb = \<lparr>d_value = ?t, isDotted = False, isDoubleDotted = False\<rparr>
             \<and> b_effect nb = \<lparr>be_tremoloPicking = None\<rparr>
             \<and> length (b_notes nb) = length (b_notes b)
             \<and> map n_value (b_notes nb) = map n_value (b_notes b)
             \<and> map n_string (b_notes nb) = map n_string (b_notes b)
             \<and> map n_type (b_notes nb) = map n_type (b_notes b)
             \<and> map n_velocity (b_notes nb) = map n_velocity (b_notes b)
             \<and> (\<forall>n \<in> set (b_notes nb). n_effect n = \<lparr>ne_tremoloPicking = None\<rparr>))"
    using c len each shape get_beat_duration_fraction_returns [OF nz] by auto
  then show ?thesis unfolding beat_fraction_def .
qed

theorem create_individual_notes_subdivides_witness:
  "(\<exists>new_beats.
      create_individual_notes eighth_chord (Some (speed_of 16)) = Some ([], Inr new_beats)
    \<and> length new_beats = 2
    \<and> list_all (\<lambda>nb. d_value (b_duration nb) = 16 \<and> map n_value (b_notes nb) = [0, 2, 2]
                   \<and> map n_string (b_notes nb) = [6, 5, 4]) new_beats)
   \<and> (\<exists>new_beats.
        create_individual_notes dotted_quarter_tremolo (Some (speed_of 16))
          = Some ([], Inr new_beats)
      \<and> get_beat_duration_fraction dotted_quarter_tremolo = Inr (3 / 8)
      \<and> length new_beats = 6)
   \<and> (\<exists>new_beats.
        create_individual_notes double_dotted_eighth_tremolo (Some (speed_of 32))
          = Some ([], Inr new_beats)
      \<and> get_beat_duration_fraction double_dotted_eighth_tremolo = Inr (7 / 32)
      \<and> length new_beats = 7)"
proof -
  have t: "d_value (tp_duration (speed_of 16)) \<in> {8, 16, 32}"
    "d_value (tp_duration (speed_of 32)) \<in> {8, 16, 32}"
    by (simp_all add: speed_of_def)
  have h: "b_notes eighth_chord \<noteq> []" "0 < d_value (b_duration eighth_chord)"
    by (simp_all add: eighth_chord_def)
  from create_individual_notes_subdivides [OF h t(1)] obtain new_beats where
    r: "create_individual_notes eighth_chord (Some (speed_of 16)) = Some ([], Inr new_beats)"
       "int (length new_beats)
          = \<lfloor>((1 / of_int (d_value (b_duration eighth_chord)) :: rat)
                  * (if isDoubleDotted (b_duration eighth_chord) then 7 / 4
                     else if isDotted (b_duration eighth_chord) then 3 / 2 else 1))
                / (1 / of_int (d_value (tp_duration (speed_of 16))))\<rfloor>"
       "\<forall>nb \<in> set new_beats.
          b_duration nb = \<lparr>d_value = d_value (tp_duration (speed_of 16)), isDotted = False,
                            isDoubleDotted = False\<rparr>
        \<and> map n_value (b_notes nb) = map n_value (b_notes eighth_chord)
        \<and> map n_string (b_notes nb) = map n_string (b_notes eighth_chord)"
    by blast
  have "length new_beats = 2" using r(2) by (simp add: eighth_chord_def speed_of_def)
  moreover have "list_all (\<lambda>nb. d_value (b_duration nb) = 16
             \<and> map n_value (b_notes nb) = [0, 2, 2] \<and> map n_string (b_notes nb) = [6, 5, 4])
           new_beats"
    using r(3) by (simp add: list_all_iff speed_of_def eighth_chord_def tremolo_note_def)
  ultimately have first: "\<exists>new_beats.
      create_individual_notes eighth_chord (Some (speed_of 16)) = Some ([], Inr new_beats)
    \<and> length new_beats = 2
    \<and> list_all (\<lambda>nb. d_value (b_duration nb) = 16 \<and> map n_value (b_notes nb) = [0, 2, 2]
                   \<and> map n_string (b_notes nb) = [6, 5, 4]) new_beats"
    using r(1) by blast
  have hd: "b_notes dotted_quarter_tremolo \<noteq> []" "0 < d_value (b_duration dotted_quarter_tremolo)"
    by (simp_all add: dotted_quarter_tremolo_def)
  from create_individual_notes_subdivides [OF hd t(1)] obtain dotted_beats where
    d: "create_individual_notes dotted_quarter_tremolo (Some (speed_of 16))
          = Some ([], Inr dotted_beats)"
       "get_beat_duration_fraction dotted_quarter_tremolo
          = Inr ((1 / of_int (d_value (b_duration dotted_quarter_tremolo)))
                    * (if isDoubleDotted (b_duration dotted_quarter_tremolo) then 7 / 4
                       else if isDotted (b_duration dotted_quarter_tremolo) then 3 / 2 else 1))"
       "int (length dotted_beats)
          = \<lfloor>((1 / of_int (d_value (b_duration dotted_quarter_tremolo)) :: rat)
                  * (if isDoubleDotted (b_duration dotted_quarter_tremolo) then 7 / 4
                     else if isDotted (b_duration dotted_quarter_tremolo) then 3 / 2 else 1))
                / (1 / of_int (d_value (tp_duration (speed_of 16))))\<rfloor>"
    by blast
  have "get_beat_duration_fraction dotted_quarter_tremolo = Inr (3 / 8)"
    "length dotted_beats = 6"
    using d(2,3) by (simp_all add: dotted_quarter_tremolo_def speed_of_def)
  then have second: "\<exists>new_beats.
        create_individual_notes dotted_quarter_tremolo (Some (speed_of 16))
          = Some ([], Inr new_beats)
      \<and> get_beat_duration_fraction dotted_quarter_tremolo = Inr (3 / 8)
      \<and> length new_beats = 6"
    using d(1) by blast
  have hdd: "b_notes double_dotted_eighth_tremolo \<noteq> []"
    "0 < d_value (b_duration double_dotted_eighth_tremolo)"
    by (simp_all add: double_dotted_eighth_tremolo_def)
  from create_individual_notes_subdivides [OF hdd t(2)] obtain dd_beats where
    e: "create_individual_notes double_dotted_eighth_tremolo (Some (speed_of 32))
          = Some ([], Inr dd_beats)"
       "get_beat_duration_fraction double_dotted_eighth_tremolo
          = Inr ((1 / of_int (d_value (b_duration double_dotted_eighth_tremolo)))
                    * (if isDoubleDotted (b_duration double_dotted_eighth_tremolo) then 7 / 4
                       else if isDotted (b_duration double_dotted_eighth_tremolo) then 3 / 2
                       else 1))"
       "int (length dd_beats)
          = \<lfloor>((1 / of_int (d_value (b_duration double_dotted_eighth_tremolo)) :: rat)
                  * (if isDoubleDotted (b_duration double_dotted_eighth_tremolo) then 7 / 4
                     else if isDotted (b_duration double_dotted_eighth_tremolo) then 3 / 2
                     else 1))
                / (1 / of_int (d_value (tp_duration (speed_of 32))))\<rfloor>"
    by blast
  have "get_beat_duration_fraction double_dotted_eighth_tremolo = Inr (7 / 32)"
    "length dd_beats = 7"
    using e(2,3) by (simp_all add: double_dotted_eighth_tremolo_def speed_of_def)
  then have third: "\<exists>new_beats.
        create_individual_notes double_dotted_eighth_tremolo (Some (speed_of 32))
          = Some ([], Inr new_beats)
      \<and> get_beat_duration_fraction double_dotted_eighth_tremolo = Inr (7 / 32)
      \<and> length new_beats = 7"
    using e(1) by blast
  show ?thesis using first second third by blast
qed

text \<open>
  Claim C6. Let the speed object be absent, or present with a duration value other than 8,
  16 and 32, and let the beat have a nonzero duration value (line 91 reads the duration
  before anything else). Then \<open>create_individual_notes\<close> resolves the target to 16,
  prints a warning and returns: it neither raises nor loops. The beats it returns are
  the ones it returns, without warning, for a speed object of value 16.
\<close>

theorem create_individual_notes_fallback:
  assumes "d_value (b_duration b) \<noteq> 0"
    and "sp = None \<or> (\<exists>tp. sp = Some tp \<and> d_value (tp_duration tp) \<notin> {8, 16, 32})"
    and "d_value (tp_duration sp16) = 16"
  shows "\<exists>warnings new_beats.
           create_individual_notes b sp = Some (warnings, Inr new_beats)
         \<and> warnings \<noteq> []
         \<and> snd (resolve_target_duration sp) = 16
         \<and> create_individual_notes b (Some sp16) = Some ([], Inr new_beats)"
proof -
  have r: "snd (resolve_target_duration sp) = 16" "fst (resolve_target_duration sp) \<noteq> []"
    using assms(2) by (auto simp: resolve_target_duration_def Let_def)
  have r16: "resolve_target_duration (Some sp16) = ([], 16)"
    using assms(3) by (simp add: resolve_target_duration_def)
  show ?thesis
    using create_individual_notes_returns [OF assms(1), of sp]
      create_individual_notes_returns [OF assms(1), of "Some sp16"] r r16
    by simp
qed

theorem create_individual_notes_fallback_witness:
  "\<exists>warnings new_beats.
     create_individual_notes quarter_tremolo (Some (speed_of 5)) = Some (warnings, Inr new_beats)
   \<and> warnings = [WarnUnknownTremoloValue 5]
   \<and> length new_beats = 4
   \<and> create_individual_notes quarter_tremolo (Some (speed_of 16)) = Some ([], Inr new_beats)"
proof -
  have h: "d_value (b_duration quarter_tremolo) \<noteq> 0"
    "Some (speed_of 5) = None
        \<or> (\<exists>tp. Some (speed_of 5) = Some tp \<and> d_value (tp_duration tp) \<notin> {8, 16, 32})"
    "d_value (tp_duration (speed_of 16)) = 16"
    by (simp_all add: quarter_tremolo_def speed_of_def)
  from create_individual_notes_fallback [OF h] obtain warnings new_beats where
    r: "create_individual_notes quarter_tremolo (Some (speed_of 5))
          = Some (warnings, Inr new_beats)"
       "create_individual_notes quarter_tremolo (Some (speed_of 16)) = Some ([], Inr new_beats)"
    by blast
  have "create_individual_notes quarter_tremolo (Some (speed_of 5))
          = Some ([WarnUnknownTremoloValue 5],
                  Inr (replicate 4 (new_chord_beat quarter_tremolo 16)))"
    by code_simp
  then have "warnings = [WarnUnknownTremoloValue 5]" "length new_beats = 4"
    using r(1) by simp_all
  then show ?thesis using r by blast
qed

section \<open>Tremolo detection: results\<close>

lemma scan_note_markers_find:
  "scan_note_markers v ns =
     (case find (\<lambda>n. ne_tremoloPicking (n_effect n) \<noteq> None) ns of
        Some n \<Rightarrow> ne_tremoloPicking (n_effect n) | None \<Rightarrow> v)"
  by (induction ns) simp_all

text \<open>
  Claim C3, as the code has it. The speed recorded for a beat is the marker of the first
  note, in note order, that carries one, whether or not the beat itself carries a marker;
  the beat-level marker is recorded only when no note carries one, and nothing is recorded
  when there is no marker at all. The scan of lines 180-183 is not guarded by the test of
  line 178 and overwrites what that test found.
\<close>

theorem tremolo_speed_value_note_first:
  "tremolo_speed_value b =
     (case find (\<lambda>n. ne_tremoloPicking (n_effect n) \<noteq> None) (b_notes b) of
        Some n \<Rightarrow> ne_tremoloPicking (n_effect n)
      | None \<Rightarrow> be_tremoloPicking (b_effect b))"
  by (simp add: tremolo_speed_value_def scan_note_markers_find split: option.split)

theorem tremolo_speed_value_note_first_witness:
  "tremolo_speed_value both_markers = Some (speed_of 32)
   \<and> tremolo_speed_value rest_tremolo = Some (speed_of 16)
   \<and> tremolo_speed_value plain_quarter = None"
  using tremolo_speed_value_note_first [of both_markers]
    tremolo_speed_value_note_first [of rest_tremolo]
    tremolo_speed_value_note_first [of plain_quarter]
  by (simp add: both_markers_def rest_tremolo_def plain_quarter_def plain_note_def
      tremolo_note_def speed_of_def)

text \<open>
  The preference for the beat-level marker fails on a beat that carries a beat-level
  marker of speed 8 and, on its second note, a marker of speed 32: the note's marker is
  the one recorded.
\<close>

theorem tremolo_speed_value_beat_level_counterexample:
  "be_tremoloPicking (b_effect both_markers) = Some (speed_of 8)
   \<and> list_ex (\<lambda>n. ne_tremoloPicking (n_effect n) \<noteq> None) (b_notes both_markers)
   \<and> tremolo_speed_value both_markers = Some (speed_of 32)
   \<and> tremolo_speed_value both_markers \<noteq> be_tremoloPicking (b_effect both_markers)"
  by (simp add: both_markers_def tremolo_speed_value_def plain_note_def tremolo_note_def
      speed_of_def)

lemma remove_tremolo_effect_clean: "\<not> has_tremolo_picking (remove_tremolo_effect b)"
  by (simp add: has_tremolo_picking_def remove_tremolo_effect_def list_ex_iff)

lemma new_chord_beat_clean: "\<not> has_tremolo_picking (new_chord_beat b t)"
  by (simp add: has_tremolo_picking_def new_chord_beat_def new_beat_effect_def new_note_def
      new_note_effect_def list_ex_iff)

section \<open>Measure rewriter: results\<close>

lemma insert_new_beats_from:
  "length pre + length placed = k + j \<Longrightarrow> length pre = k \<Longrightarrow>
   foldl (\<lambda>bs (i, nb). list_insert (k + i) nb bs) (pre @ placed @ rest) (enumerate j nbs)
     = pre @ placed @ nbs @ rest"
proof (induction nbs arbitrary: placed j)
  case Nil
  then show ?case by simp
next
  case (Cons nb nbs)
  have "list_insert (k + j) nb (pre @ placed @ rest) = pre @ (placed @ [nb]) @ rest"
    using Cons.prems by (simp add: list_insert_def)
  then show ?case
    using Cons.IH [of "placed @ [nb]" "Suc j"] Cons.prems by simp
qed

lemma insert_new_beats_at:
  "length pre = k \<Longrightarrow> insert_new_beats k nbs (pre @ rest) = pre @ nbs @ rest"
  using insert_new_beats_from [of pre "[]" k 0 rest nbs]
  by (simp add: insert_new_beats_def)

lemma list_pop_at:
  "length pre = k \<Longrightarrow> list_pop k (pre @ x # rest) = Inr (pre @ rest)"
  by (simp add: list_pop_def)

lemma process_tremolo_beats_append:
  "process_tremolo_beats (es @ fs) beats
     = run_bind (process_tremolo_beats es beats) (process_tremolo_beats fs)"
proof (induction es beats rule: process_tremolo_beats.induct)
  case (1 beats)
  then show ?case by (simp add: run_bind_def)
next
  case (2 beat_idx b speed entries beats)
  then show ?case
    by (auto simp: run_bind_def split: option.splits sum.splits prod.splits)
qed

lemma rewritten_beat_plain: "\<not> has_tremolo_picking b \<Longrightarrow> rewritten_beat b = [b]"
  by (simp add: rewritten_beat_def)

lemma rewritten_beat_tremolo:
  "has_tremolo_picking b \<Longrightarrow>
   rewritten_beat b = (if length (subdivider_result b) \<le> 1 then [remove_tremolo_effect b]
                       else subdivider_result b)"
  by (simp add: rewritten_beat_def)

lemma process_one:
  assumes "d_value (b_duration b) \<noteq> 0"
  shows "process_tremolo_beats [(length pre, b, tremolo_speed_value b)] (pre @ b # rest)
           = Some (Inr (pre @ (if length (subdivider_result b) \<le> 1 then [remove_tremolo_effect b]
                               else subdivider_result b) @ rest))"
proof -
  note c = create_individual_notes_returns [OF assms(1), of "tremolo_speed_value b"]
  have s: "subdivider_result b
             = replacement_beats b (snd (resolve_target_duration (tremolo_speed_value b)))"
    by (simp add: subdivider_result_def c)
  show ?thesis
    by (simp add: c s [symmetric] list_pop_at insert_new_beats_at)
qed

lemma process_collected:
  assumes "\<forall>b \<in> set bs. d_value (b_duration b) \<noteq> 0" "length pre = k"
  shows "\<exists>tb. collect_tremolo_beats k bs = Inr tb
           \<and> length tb = length (filter has_tremolo_picking bs)
           \<and> process_tremolo_beats (rev tb) (pre @ bs)
               = Some (Inr (pre @ concat (map rewritten_beat bs)))"
  using assms
proof (induction bs arbitrary: pre k)
  case Nil
  then show ?case by simp
next
  case (Cons b bs)
  have nz: "d_value (b_duration b) \<noteq> 0" using Cons.prems(1) by simp
  have "\<forall>b \<in> set bs. d_value (b_duration b) \<noteq> 0" using Cons.prems(1) by simp
  from Cons.IH [OF this, of "pre @ [b]" "Suc k"] Cons.prems(2)
  obtain tb where tb: "collect_tremolo_beats (Suc k) bs = Inr tb"
     "length tb = length (filter has_tremolo_picking bs)"
     "process_tremolo_beats (rev tb) (pre @ b # bs)
               = Some (Inr (pre @ b # concat (map rewritten_beat bs)))"
    by auto
  show ?case
  proof (cases "has_tremolo_picking b")
    case False
    then show ?thesis using tb by (simp add: rewritten_beat_plain)
  next
    case True
    have col: "collect_tremolo_beats k (b # bs) = Inr ((k, b, tremolo_speed_value b) # tb)"
      using True tb(1) get_beat_duration_fraction_returns [OF nz] by (simp add: exn_bind_def)
    have "process_tremolo_beats (rev ((k, b, tremolo_speed_value b) # tb)) (pre @ b # bs)
            = process_tremolo_beats [(k, b, tremolo_speed_value b)]
                (pre @ b # concat (map rewritten_beat bs))"
      by (simp add: process_tremolo_beats_append tb(3) run_bind_def)
    also have "\<dots> = Some (Inr (pre @ rewritten_beat b @ concat (map rewritten_beat bs)))"
      using process_one [OF nz, of pre] True Cons.prems(2) by (simp add: rewritten_beat_tremolo)
    finally show ?thesis using col tb(2) True by simp
  qed
qed

lemma calculate_beat_positions_returns:
  "\<forall>b \<in> set bs. d_value (b_duration b) \<noteq> 0 \<Longrightarrow> \<exists>ps. beat_positions_from c bs = Inr ps"
proof (induction bs arbitrary: c)
  case Nil
  then show ?case by simp
next
  case (Cons b bs)
  then obtain ps where "beat_positions_from (c + beat_fraction b) bs = Inr ps" by fastforce
  then show ?case
    using Cons.prems get_beat_duration_fraction_returns [of b] by (simp add: exn_bind_def)
qed

lemma rewritten_beats_plain:
  "\<forall>b \<in> set bs. \<not> has_tremolo_picking b \<Longrightarrow> concat (map rewritten_beat bs) = bs"
  by (induction bs) (simp_all add: rewritten_beat_plain)

lemma convert_tremolo_in_voice_returns:
  assumes "\<forall>b \<in> set (v_beats v). d_value (b_duration b) \<noteq> 0"
  shows "convert_tremolo_in_voice v
           = Some (Inr (rewritten_voice v, length (filter has_tremolo_picking (v_beats v))))"
proof -
  obtain ps where ps: "calculate_beat_positions v = Inr ps"
    using calculate_beat_positions_returns [OF assms] by (auto simp: calculate_beat_positions_def)
  from process_collected [OF assms, of "[]" 0]
  obtain tb where tb: "collect_tremolo_beats 0 (v_beats v) = Inr tb"
     "length tb = length (filter has_tremolo_picking (v_beats v))"
     "process_tremolo_beats (rev tb) (v_beats v)
               = Some (Inr (concat (map rewritten_beat (v_beats v))))"
    by auto
  show ?thesis
  proof (cases "tb = []")
    case True
    then have "\<forall>b \<in> set (v_beats v). \<not> has_tremolo_picking b"
      using tb(2) by (simp add: filter_empty_conv)
    then have "rewritten_voice v = v"
      by (simp add: rewritten_voice_def rewritten_beats_plain)
    then show ?thesis
      using True tb(1,2) ps by (simp add: convert_tremolo_in_voice_def)
  next
    case False
    then show ?thesis
      using tb ps by (simp add: convert_tremolo_in_voice_def run_bind_def rewritten_voice_def)
  qed
qed

lemma convert_tremolo_in_voices_returns:
  assumes "\<forall>v \<in> set vs. \<forall>b \<in> set (v_beats v). d_value (b_duration b) \<noteq> 0"
  shows "convert_tremolo_in_voices vs
           = Some (Inr (map rewritten_voice vs,
                        (\<Sum>v\<leftarrow>vs. length (filter has_tremolo_picking (v_beats v)))))"
  using assms
  by (induction vs) (simp_all add: convert_tremolo_in_voice_returns run_bind_def)

lemma subdivider_result_eq:
  "d_value (b_duration b) \<noteq> 0 \<Longrightarrow>
   subdivider_result b
     = replacement_beats b (snd (resolve_target_duration (tremolo_speed_value b)))"
  by (simp add: subdivider_result_def create_individual_notes_returns)

lemma rewritten_beat_clean:
  assumes "d_value (b_duration b) \<noteq> 0" "x \<in> set (rewritten_beat b)"
  shows "\<not> has_tremolo_picking x"
proof (cases "has_tremolo_picking b")
  case False
  then show ?thesis using assms(2) by (simp add: rewritten_beat_plain)
next
  case True
  show ?thesis
  proof (cases "length (subdivider_result b) \<le> 1")
    case True
    then show ?thesis
      using assms(2) \<open>has_tremolo_picking b\<close>
      by (simp add: rewritten_beat_tremolo remove_tremolo_effect_clean)
  next
    case False
    then have "x \<in> set (subdivider_result b)"
      using assms(2) \<open>has_tremolo_picking b\<close> by (simp add: rewritten_beat_tremolo)
    then have "x = new_chord_beat b (snd (resolve_target_duration (tremolo_speed_value b)))"
      unfolding subdivider_result_eq [OF assms(1)]
      by (simp add: replacement_beats_def split: if_splits)
    then show ?thesis by (simp add: new_chord_beat_clean)
  qed
qed

lemma convert_tremolo_in_measure_returns:
  assumes "\<forall>v \<in> set (m_voices m). \<forall>b \<in> set (v_beats v). d_value (b_duration b) \<noteq> 0"
  shows "convert_tremolo_in_measure m =
           Some (Inr (m\<lparr>m_voices := map rewritten_voice (m_voices m)\<rparr>,
                      (\<Sum>v\<leftarrow>m_voices m. length (filter has_tremolo_picking (v_beats v)))))"
  by (simp add: convert_tremolo_in_measure_def convert_tremolo_in_voices_returns [OF assms]
      run_bind_def)

lemma upt_0_Suc: "[0..<Suc n] = 0 # map Suc [0..<n]"
  by (simp add: upt_conv_Cons map_Suc_upt del: upt_Suc)

lemma collect_tremolo_beats_indices:
  assumes "\<forall>b \<in> set bs. d_value (b_duration b) \<noteq> 0"
  shows "collect_tremolo_beats k bs =
           Inr (map (\<lambda>i. (k + i, bs ! i, tremolo_speed_value (bs ! i)))
                  (filter (\<lambda>i. has_tremolo_picking (bs ! i)) [0..<length bs]))"
  using assms
proof (induction bs arbitrary: k)
  case Nil
  then show ?case by simp
next
  case (Cons b bs)
  have nz: "d_value (b_duration b) \<noteq> 0" using Cons.prems by simp
  have ih: "collect_tremolo_beats (Suc k) bs =
           Inr (map (\<lambda>i. (Suc k + i, bs ! i, tremolo_speed_value (bs ! i)))
                  (filter (\<lambda>i. has_tremolo_picking (bs ! i)) [0..<length bs]))"
    using Cons.IH [of "Suc k"] Cons.prems by simp
  have f: "filter (\<lambda>i. has_tremolo_picking ((b # bs) ! i)) (map Suc [0..<length bs])
             = map Suc (filter (\<lambda>i. has_tremolo_picking (bs ! i)) [0..<length bs])"
    by (simp add: filter_map comp_def)
  show ?case
    using ih get_beat_duration_fraction_returns [OF nz]
    by (simp add: upt_0_Suc f exn_bind_def comp_def del: upt_Suc)
qed

lemma collect_tremolo_beats_detected:
  "\<forall>b \<in> set bs. d_value (b_duration b) \<noteq> 0 \<Longrightarrow>
   collect_tremolo_beats 0 bs = Inr (detected_tremolo_beats bs)"
  by (simp add: collect_tremolo_beats_indices detected_tremolo_beats_def)

lemma process_detected:
  assumes "\<forall>b \<in> set bs. d_value (b_duration b) \<noteq> 0"
  shows "process_tremolo_beats (rev (detected_tremolo_beats bs)) bs
           = Some (Inr (concat (map rewritten_beat bs)))"
  using process_collected [OF assms, of "[]" 0] collect_tremolo_beats_detected [OF assms]
  by auto

text \<open>
  Claim C2. On a measure whose beats all have a nonzero duration value,
  \<open>convert_tremolo_in_measure\<close> returns the measure in which every voice holds, for
  each of its beats in their order, what \<open>rewritten_beat\<close> gives: a beat without tremolo
  stays; a tremolo beat for which \<open>create_individual_notes\<close> returns at most one beat
  stays at its place, unchanged but for its tremolo markers, which are set to \<open>None\<close>;
  a tremolo beat for which it returns two or more beats is replaced, at its place, by the
  returned beats. The detection pass runs over the beats of the voice as they are before
  the rewrite and collects the tremolo beats by increasing index; the rewrite handles the
  collected entries in reverse. The count returned is the number of tremolo beats.
\<close>

theorem convert_tremolo_in_measure_rewrites:
  assumes "\<forall>v \<in> set (m_voices m). \<forall>b \<in> set (v_beats v). d_value (b_duration b) \<noteq> 0"
  shows "convert_tremolo_in_measure m =
           Some (Inr (m\<lparr>m_voices := map rewritten_voice (m_voices m)\<rparr>,
                      (\<Sum>v\<leftarrow>m_voices m. length (filter has_tremolo_picking (v_beats v)))))
       \<and> (\<forall>v \<in> set (m_voices m).
            v_beats (rewritten_voice v) = concat (map rewritten_beat (v_beats v))
          \<and> collect_tremolo_beats 0 (v_beats v) = Inr (detected_tremolo_beats (v_beats v))
          \<and> process_tremolo_beats (rev (detected_tremolo_beats (v_beats v))) (v_beats v)
              = Some (Inr (concat (map rewritten_beat (v_beats v))))
          \<and> (\<forall>b \<in> set (v_beats v).
                create_individual_notes b (tremolo_speed_value b)
                  = Some (fst (resolve_target_duration (tremolo_speed_value b)),
                          Inr (subdivider_result b))
              \<and> rewritten_beat b =
                  (if \<not> has_tremolo_picking b then [b]
                   else if length (subdivider_result b) \<le> 1
                        then [b\<lparr>b_effect := (b_effect b)\<lparr>be_tremoloPicking := None\<rparr>,
                                b_notes := map (\<lambda>n. n\<lparr>n_effect := (n_effect n)\<lparr>ne_tremoloPicking := None\<rparr>\<rparr>)
                                             (b_notes b)\<rparr>]
                        else subdivider_result b)))"
proof -
  have per_beat: "create_individual_notes b (tremolo_speed_value b)
                  = Some (fst (resolve_target_duration (tremolo_speed_value b)),
                          Inr (subdivider_result b))"
    if "d_value (b_duration b) \<noteq> 0" for b
    using that by (simp add: subdivider_result_eq create_individual_notes_returns)
  have rb: "rewritten_beat b =
                  (if \<not> has_tremolo_picking b then [b]
                   else if length (subdivider_result b) \<le> 1
                        then [b\<lparr>b_effect := (b_effect b)\<lparr>be_tremoloPicking := None\<rparr>,
                                b_notes := map (\<lambda>n. n\<lparr>n_effect := (n_effect n)\<lparr>ne_tremoloPicking := None\<rparr>\<rparr>)
                                             (b_notes b)\<rparr>]
                        else subdivider_result b)" for b
    by (simp add: rewritten_beat_def remove_tremolo_effect_def)
  have voice: "v_beats (rewritten_voice v) = concat (map rewritten_beat (v_beats v))" for v
    by (simp add: rewritten_voice_def)
  show ?thesis
    using convert_tremolo_in_measure_returns [OF assms] assms
    by (auto simp: voice per_beat collect_tremolo_beats_detected process_detected
        simp flip: rb)
qed

theorem convert_tremolo_in_measure_rewrites_witness:
  "convert_tremolo_in_measure example_measure
     = Some (Inr (example_measure\<lparr>m_voices := map rewritten_voice (m_voices example_measure)\<rparr>, 2))
   \<and> map rewritten_beat [plain_quarter, quarter_tremolo, thirty_second_tremolo]
       = [[plain_quarter], replicate 4 (new_chord_beat quarter_tremolo 16),
          [remove_tremolo_effect thirty_second_tremolo]]
   \<and> detected_tremolo_beats [plain_quarter, quarter_tremolo, thirty_second_tremolo]
       = [(1, quarter_tremolo, Some (speed_of 5)),
          (2, thirty_second_tremolo, Some (speed_of 32))]"
proof -
  have h: "\<forall>v \<in> set (m_voices example_measure). \<forall>b \<in> set (v_beats v).
             d_value (b_duration b) \<noteq> 0"
    by (simp add: example_measure_def plain_quarter_def quarter_tremolo_def
        thirty_second_tremolo_def quarter_def)
  have n: "(\<Sum>v\<leftarrow>m_voices example_measure. length (filter has_tremolo_picking (v_beats v))) = 2"
    by code_simp
  have r: "map rewritten_beat [plain_quarter, quarter_tremolo, thirty_second_tremolo]
       = [[plain_quarter], replicate 4 (new_chord_beat quarter_tremolo 16),
          [remove_tremolo_effect thirty_second_tremolo]]"
    by code_simp
  have c: "detected_tremolo_beats [plain_quarter, quarter_tremolo, thirty_second_tremolo]
       = [(1, quarter_tremolo, Some (speed_of 5)),
          (2, thirty_second_tremolo, Some (speed_of 32))]"
    by code_simp
  show ?thesis
    using convert_tremolo_in_measure_rewrites [OF h] n r c by simp
qed

text \<open>
  Claim C9. On a measure whose beats all have a nonzero duration value,
  \<open>convert_tremolo_in_measure\<close> returns, and in the measure it leaves no beat of any
  voice satisfies \<open>has_tremolo_picking\<close>.
\<close>

theorem convert_tremolo_in_measure_removes_all:
  assumes "\<forall>v \<in> set (m_voices m). \<forall>b \<in> set (v_beats v). d_value (b_duration b) \<noteq> 0"
  shows "\<exists>m' converted_count.
           convert_tremolo_in_measure m = Some (Inr (m', converted_count))
         \<and> (\<forall>v \<in> set (m_voices m'). \<forall>b \<in> set (v_beats v). \<not> has_tremolo_picking b)"
proof -
  have "\<forall>v \<in> set (map rewritten_voice (m_voices m)). \<forall>b \<in> set (v_beats v).
          \<not> has_tremolo_picking b"
    using assms by (auto simp: rewritten_voice_def dest: rewritten_beat_clean)
  then show ?thesis
    using convert_tremolo_in_measure_returns [OF assms] by simp
qed

theorem convert_tremolo_in_measure_removes_all_witness:
  "\<exists>m' converted_count.
     convert_tremolo_in_measure example_measure = Some (Inr (m', converted_count))
   \<and> list_all (\<lambda>v. list_all (\<lambda>b. \<not> has_tremolo_picking b) (v_beats v)) (m_voices m')
   \<and> map (\<lambda>v. length (v_beats v)) (m_voices m') = [6, 0]"
proof -
  have h: "\<forall>v \<in> set (m_voices example_measure). \<forall>b \<in> set (v_beats v).
             d_value (b_duration b) \<noteq> 0"
    by (simp add: example_measure_def plain_quarter_def quarter_tremolo_def
        thirty_second_tremolo_def quarter_def)
  from convert_tremolo_in_measure_removes_all [OF h] obtain m' converted_count where
    r: "convert_tremolo_in_measure example_measure = Some (Inr (m', converted_count))"
       "\<forall>v \<in> set (m_voices m'). \<forall>b \<in> set (v_beats v). \<not> has_tremolo_picking b"
    by blast
  have "map_option (map_sum id (\<lambda>(m', c). map (\<lambda>v. length (v_beats v)) (m_voices m')))
          (convert_tremolo_in_measure example_measure) = Some (Inr [6, 0])"
    by code_simp
  then have "map (\<lambda>v. length (v_beats v)) (m_voices m') = [6, 0]"
    using r(1) by simp
  then show ?thesis using r by (auto simp: list_all_iff)
qed

lemma rest_beat_rewritten:
  assumes "b_notes b = []" "has_tremolo_picking b" "d_value (b_duration b) \<noteq> 0"
  shows "subdivider_result b = []"
    and "rewritten_beat b = [b\<lparr>b_effect := \<lparr>be_tremoloPicking = None\<rparr>\<rparr>]"
proof -
  show s: "subdivider_result b = []"
    using assms(1) by (simp add: subdivider_result_eq [OF assms(3)] replacement_beats_def)
  have "remove_tremolo_effect b = b\<lparr>b_effect := \<lparr>be_tremoloPicking = None\<rparr>\<rparr>"
    using assms(1) by (simp add: remove_tremolo_effect_def)
  then show "rewritten_beat b = [b\<lparr>b_effect := \<lparr>be_tremoloPicking = None\<rparr>\<rparr>]"
    using assms(2) s by (simp add: rewritten_beat_tremolo)
qed

text \<open>
  Claim C4, as the code has it. For a rest (a beat without notes) that carries a tremolo
  marker, \<open>create_individual_notes\<close> returns no beat, whatever the speed object. The
  rewriter keeps the rest at its place in the voice, after the rewritten beats that precede
  it and before the rewritten beats that follow it, with its duration and its empty note
  list as they were. Its effect descriptor is modified: the tremolo marker is set to
  \<open>None\<close>, since the test of line 196 also holds for an empty list of new beats.
\<close>

theorem rest_beat_only_loses_marker:
  assumes "b_notes b = []" and "has_tremolo_picking b"
    and "v \<in> set (m_voices m)" and "v_beats v = before @ b # after"
    and "\<forall>v \<in> set (m_voices m). \<forall>x \<in> set (v_beats v). d_value (b_duration x) \<noteq> 0"
  shows "(\<exists>warnings. create_individual_notes b speed = Some (warnings, Inr []))
       \<and> (\<exists>converted_count.
            convert_tremolo_in_measure m
              = Some (Inr (m\<lparr>m_voices := map rewritten_voice (m_voices m)\<rparr>, converted_count)))
       \<and> v_beats (rewritten_voice v)
           = concat (map rewritten_beat before)
             @ [b\<lparr>b_effect := \<lparr>be_tremoloPicking = None\<rparr>\<rparr>]
             @ concat (map rewritten_beat after)
       \<and> b_duration (b\<lparr>b_effect := \<lparr>be_tremoloPicking = None\<rparr>\<rparr>) = b_duration b
       \<and> b_notes (b\<lparr>b_effect := \<lparr>be_tremoloPicking = None\<rparr>\<rparr>) = b_notes b"
proof -
  have nz: "d_value (b_duration b) \<noteq> 0" using assms(3,4,5) by auto
  have "create_individual_notes b speed = Some (fst (resolve_target_duration speed), Inr [])"
    using assms(1) by (simp add: create_individual_notes_returns [OF nz] replacement_beats_def)
  moreover have "v_beats (rewritten_voice v)
           = concat (map rewritten_beat before)
             @ [b\<lparr>b_effect := \<lparr>be_tremoloPicking = None\<rparr>\<rparr>]
             @ concat (map rewritten_beat after)"
    by (simp add: rewritten_voice_def assms(4) rest_beat_rewritten(2) [OF assms(1,2) nz])
  ultimately show ?thesis
    using convert_tremolo_in_measure_returns [OF assms(5)] by simp
qed

theorem rest_beat_only_loses_marker_witness:
  "create_individual_notes rest_tremolo (Some (speed_of 16)) = Some ([], Inr [])
   \<and> convert_tremolo_in_measure rest_between
       = Some (Inr (rest_between\<lparr>m_voices := map rewritten_voice (m_voices rest_between)\<rparr>, 2))
   \<and> v_beats (rewritten_voice \<lparr>v_beats = [plain_quarter, rest_tremolo, quarter_tremolo]\<rparr>)
       = [plain_quarter, rest_tremolo\<lparr>b_effect := \<lparr>be_tremoloPicking = None\<rparr>\<rparr>]
         @ replicate 4 (new_chord_beat quarter_tremolo 16)"
proof -
  let ?v = "\<lparr>v_beats = [plain_quarter, rest_tremolo, quarter_tremolo]\<rparr>"
  have h: "b_notes rest_tremolo = []" "has_tremolo_picking rest_tremolo"
    "?v \<in> set (m_voices rest_between)"
    "v_beats ?v = [plain_quarter] @ rest_tremolo # [quarter_tremolo]"
    "\<forall>v \<in> set (m_voices rest_between). \<forall>x \<in> set (v_beats v). d_value (b_duration x) \<noteq> 0"
    by (simp_all add: rest_tremolo_def has_tremolo_picking_def rest_between_def
        plain_quarter_def quarter_tremolo_def quarter_def)
  have c: "create_individual_notes rest_tremolo (Some (speed_of 16)) = Some ([], Inr [])"
    by code_simp
  have r: "concat (map rewritten_beat [plain_quarter]) = [plain_quarter]"
    "concat (map rewritten_beat [quarter_tremolo]) = replicate 4 (new_chord_beat quarter_tremolo 16)"
    by code_simp+
  have n: "convert_tremolo_in_measure rest_between
       = Some (Inr (rest_between\<lparr>m_voices := map rewritten_voice (m_voices rest_between)\<rparr>, 2))"
    by code_simp
  show ?thesis
    using rest_beat_only_loses_marker [OF h, of "Some (speed_of 16)"] c r n by simp
qed

text \<open>
  A measure with one voice holding one rest with a beat-level marker of speed 16: the
  subdivider returns no beat, and the rewriter changes the effect descriptor of the rest,
  so the rest is not left untouched.
\<close>

theorem rest_beat_untouched_counterexample:
  "b_notes rest_tremolo = [] \<and> has_tremolo_picking rest_tremolo
   \<and> create_individual_notes rest_tremolo (tremolo_speed_value rest_tremolo) = Some ([], Inr [])
   \<and> convert_tremolo_in_measure rest_measure
       = Some (Inr (rest_measure\<lparr>m_voices :=
                      [\<lparr>v_beats = [rest_tremolo\<lparr>b_effect := \<lparr>be_tremoloPicking = None\<rparr>\<rparr>]\<rparr>]\<rparr>, 1))
   \<and> b_effect (rest_tremolo\<lparr>b_effect := \<lparr>be_tremoloPicking = None\<rparr>\<rparr>) \<noteq> b_effect rest_tremolo
   \<and> convert_tremolo_in_measure rest_measure \<noteq> Some (Inr (rest_measure, 1))"
proof -
  have a: "b_notes rest_tremolo = []" "has_tremolo_picking rest_tremolo"
    "b_effect (rest_tremolo\<lparr>b_effect := \<lparr>be_tremoloPicking = None\<rparr>\<rparr>) \<noteq> b_effect rest_tremolo"
    by (simp_all add: rest_tremolo_def has_tremolo_picking_def)
  have c: "create_individual_notes rest_tremolo (tremolo_speed_value rest_tremolo)
             = Some ([], Inr [])"
    by code_simp
  have r: "convert_tremolo_in_measure rest_measure
       = Some (Inr (rest_measure\<lparr>m_voices :=
                      [\<lparr>v_beats = [rest_tremolo\<lparr>b_effect := \<lparr>be_tremoloPicking = None\<rparr>\<rparr>]\<rparr>]\<rparr>, 1))"
    by code_simp
  have "rest_measure\<lparr>m_voices :=
          [\<lparr>v_beats = [rest_tremolo\<lparr>b_effect := \<lparr>be_tremoloPicking = None\<rparr>\<rparr>]\<rparr>]\<rparr> \<noteq> rest_measure"
    by (simp add: rest_measure_def rest_tremolo_def gp_measure.equality)
  then show ?thesis using a c r by simp
qed

section \<open>Timing validator: results\<close>

text \<open>
  Claim C7 does not hold of the code. The outer \<^verbatim>\<open>try\<close> of
  \<open>get_time_signature_duration\<close> handles AttributeError and TypeError only. A time
  signature 4/0 makes \<^verbatim>\<open>Fraction\<close> raise ZeroDivisionError, and a numerator that
  is no integer literal makes \<^verbatim>\<open>int\<close> raise ValueError; both exceptions leave the
  function without a warning and without the default, and \<open>validate_measure_timing\<close>
  passes them on.
\<close>

theorem get_time_signature_duration_propagates:
  "get_time_signature_duration
     \<lparr>m_timeSignature = Some \<lparr>numerator = IntLike 4, denominator = IntLike 0\<rparr>, m_voices = []\<rparr>
     = ([], Inl ZeroDivisionError)
   \<and> get_time_signature_duration
       \<lparr>m_timeSignature = Some \<lparr>numerator = BadLiteral, denominator = IntLike 4\<rparr>, m_voices = []\<rparr>
     = ([], Inl ValueError)
   \<and> validate_measure_timing
       \<lparr>m_timeSignature = Some \<lparr>numerator = IntLike 4, denominator = IntLike 0\<rparr>, m_voices = []\<rparr>
     = Inl ZeroDivisionError"
  by (simp add: get_time_signature_duration_def read_time_signature_def Fraction_def
      exn_bind_def validate_measure_timing_def)

text \<open>
  The two exceptions that are handled: the warning is printed and the capacity defaults
  to 1.
\<close>

lemma get_time_signature_duration_defaults:
  assumes "m_timeSignature m = Some ts"
    and "read_time_signature ts = Inl AttributeError \<or> read_time_signature ts = Inl TypeError"
  shows "get_time_signature_duration m = ([WarnTimeSigUnreliable], Inr 1)
       \<or> get_time_signature_duration m = ([WarnTimeSigInvalid], Inr 1)"
  using assms by (auto simp: get_time_signature_duration_def)

lemma total_duration_from_returns:
  "\<forall>b \<in> set bs. d_value (b_duration b) \<noteq> 0 \<Longrightarrow>
   total_duration_from c bs = Inr (c + beats_duration bs)"
proof (induction bs arbitrary: c)
  case Nil
  then show ?case by (simp add: beats_duration_def)
next
  case (Cons b bs)
  then show ?case
    using get_beat_duration_fraction_returns [of b]
    by (simp add: exn_bind_def beats_duration_def add.assoc)
qed

lemma beats_to_keep_from_returns:
  "\<forall>b \<in> set bs. d_value (b_duration b) \<noteq> 0 \<Longrightarrow>
   \<exists>kept. beats_to_keep_from cap cur bs = Inr kept"
proof (induction bs arbitrary: cur)
  case Nil
  then show ?case by simp
next
  case (Cons b bs)
  then obtain kept where "beats_to_keep_from cap (cur + beat_fraction b) bs = Inr kept"
    by fastforce
  then show ?case
    using Cons.prems get_beat_duration_fraction_returns [of b] by (simp add: exn_bind_def)
qed



lemma validate_voice_timing_returns:
  assumes "\<forall>b \<in> set (v_beats v). d_value (b_duration b) \<noteq> 0"
  shows "validate_voice_timing cap v = Inr (validated_voice cap v)"
proof -
  obtain kept where "beats_to_keep_from cap 0 (v_beats v) = Inr kept"
    using beats_to_keep_from_returns [OF assms] by blast
  then have "\<exists>v'. validate_voice_timing cap v = Inr v'"
    by (simp add: validate_voice_timing_def total_duration_from_returns [OF assms] exn_bind_def)
  then show ?thesis by (auto simp: validated_voice_def)
qed

lemma validated_voice_within:
  assumes "\<forall>b \<in> set (v_beats v). d_value (b_duration b) \<noteq> 0"
    "beats_duration (v_beats v) \<le> cap"
  shows "validated_voice cap v = v"
  using assms(2)
  by (simp add: validated_voice_def validate_voice_timing_def
      total_duration_from_returns [OF assms(1)] exn_bind_def)


lemma validate_voices_timing_returns:
  "\<forall>v \<in> set vs. \<forall>b \<in> set (v_beats v). d_value (b_duration b) \<noteq> 0 \<Longrightarrow>
   validate_voices_timing cap vs = Inr (map (validated_voice cap) vs)"
  by (induction vs) (simp_all add: validate_voice_timing_returns exn_bind_def)

lemma validate_measure_timing_returns:
  assumes "snd (get_time_signature_duration m) = Inr cap"
    "\<forall>v \<in> set (m_voices m). \<forall>b \<in> set (v_beats v). d_value (b_duration b) \<noteq> 0"
  shows "validate_measure_timing m = Inr (m\<lparr>m_voices := map (validated_voice cap) (m_voices m)\<rparr>)"
  by (simp add: validate_measure_timing_def assms(1) validate_voices_timing_returns [OF assms(2)]
      exn_bind_def)



text \<open>
  Claim C10. Let the capacity \<open>cap\<close> of the measure be readable and let every beat have a
  nonzero duration value. Then \<open>validate_measure_timing\<close> returns, the measure keeps its
  number of voices, and every voice whose beats sum to at most \<open>cap\<close> is in the
  resulting measure exactly as it was: the same beats in the same order.
\<close>

theorem validate_measure_timing_frame:
  assumes "snd (get_time_signature_duration m) = Inr cap"
    and "\<forall>v \<in> set (m_voices m). \<forall>b \<in> set (v_beats v). d_value (b_duration b) \<noteq> 0"
  shows "\<exists>m'. validate_measure_timing m = Inr m'
           \<and> length (m_voices m') = length (m_voices m)
           \<and> (\<forall>i < length (m_voices m).
                total_duration_from 0 (v_beats (m_voices m ! i))
                  = Inr (beats_duration (v_beats (m_voices m ! i)))
              \<and> (beats_duration (v_beats (m_voices m ! i)) \<le> cap \<longrightarrow>
                   m_voices m' ! i = m_voices m ! i))"
proof -
  let ?m' = "m\<lparr>m_voices := map (validated_voice cap) (m_voices m)\<rparr>"
  have "validate_measure_timing m = Inr ?m'"
    by (rule validate_measure_timing_returns [OF assms])
  moreover have "length (m_voices ?m') = length (m_voices m)" by simp
  moreover have "total_duration_from 0 (v_beats (m_voices m ! i))
                  = Inr (beats_duration (v_beats (m_voices m ! i)))"
    if "i < length (m_voices m)" for i
    using assms(2) nth_mem [OF that] by (intro total_duration_from_returns [of _ 0, simplified]) blast
  moreover have "m_voices ?m' ! i = m_voices m ! i"
    if "i < length (m_voices m)" "beats_duration (v_beats (m_voices m ! i)) \<le> cap" for i
  proof -
    have "\<forall>b \<in> set (v_beats (m_voices m ! i)). d_value (b_duration b) \<noteq> 0"
      using assms(2) nth_mem [OF that(1)] by blast
    then show ?thesis using that by (simp add: validated_voice_within)
  qed
  ultimately show ?thesis by blast
qed

theorem validate_measure_timing_frame_witness:
  "\<exists>m'. validate_measure_timing overfull_measure = Inr m'
     \<and> beats_duration (v_beats (m_voices overfull_measure ! 1)) = 1 / 4
     \<and> m_voices m' ! 1 = m_voices overfull_measure ! 1"
proof -
  have h: "snd (get_time_signature_duration overfull_measure) = Inr 1"
    "\<forall>v \<in> set (m_voices overfull_measure). \<forall>b \<in> set (v_beats v). d_value (b_duration b) \<noteq> 0"
    by (simp_all add: overfull_measure_def get_time_signature_duration_def four_four_def
        read_time_signature_def Fraction_def exn_bind_def plain_quarter_def quarter_def)
  have d: "beats_duration (v_beats (m_voices overfull_measure ! 1)) = 1 / 4"
    by code_simp
  have l: "1 < length (m_voices overfull_measure)" by (simp add: overfull_measure_def)
  from validate_measure_timing_frame [OF h] obtain m' where
    r: "validate_measure_timing overfull_measure = Inr m'"
       "\<forall>i < length (m_voices overfull_measure).
          beats_duration (v_beats (m_voices overfull_measure ! i)) \<le> 1 \<longrightarrow>
            m_voices m' ! i = m_voices overfull_measure ! i"
    by blast
  have "m_voices m' ! 1 = m_voices overfull_measure ! 1"
    using r(2) l d by simp
  then show ?thesis using r(1) d by blast
qed

end
